theory Spec2Isabelle
  imports Complex_Main "HOL-Library.List_Lexorder" "HOL-Library.Char_ord"
begin

section \<open>findorf: the Contig class of contig.py\<close>

text \<open>
  The module is Python 2 code: an exception is a value \<open>Inl e\<close> of a sum type, the
  value \<open>None\<close> is \<open>None\<close> of an option type. Python integers are \<open>int\<close>; expect
  values and thresholds are Python numbers (floats or ints) that the code only
  compares, and are rationals here. Relatives, titles and strands are strings, ordered
  as Python orders them (lexicographically, by character code).
\<close>

datatype error =
  AssertionError | AttributeError | IndexError | KeyError | TypeError | ZeroDivisionError

subsection \<open>Data\<close>

text \<open>
  What the BLAST parser hands over: an HSP with 1-based coordinates and a pair of
  frames, an alignment with a title and its HSPs, and a record with its alignments,
  best first.
\<close>

record blast_hsp =
  query_start :: int
  query_end :: int
  hsp_sbjct_start :: int
  hsp_sbjct_end :: int
  hsp_frame :: "int \<times> int"
  hsp_expect :: rat
  hsp_identities :: int
  hsp_align_length :: int

record blast_alignment =
  aln_title :: string
  aln_hsps :: "blast_hsp list"

record blast_record =
  alignments :: "blast_alignment list"

text \<open>
  The dictionary that \<open>_HSP_to_dict\<close> returns. \<open>percent_identity\<close> is a float
  quotient in the source; the exact quotient stands for it, and nothing reads it.
\<close>

record hsp_dict =
  expect :: rat
  identities :: int
  align_length :: int
  percent_identity :: rat
  sbjct_start :: int
  sbjct_end :: int
  frame :: int

text \<open>
  A SeqRange as \<open>add_alignment\<close> builds it: the dictionary, updated with the relative
  and the title, and the attributes of the range. Item access \<open>h['k']\<close> reads the
  dictionary and attribute access \<open>h.start\<close> the range; both are fields of one record.
  The attribute \<open>end\<close> is the field \<open>end_pos\<close>. The constructors \<open>Range\<close> and
  \<open>SeqRange\<close> belong to the BioRanges library and are taken to store their
  arguments as given.
\<close>

record seqrange = hsp_dict +
  relative :: string
  title :: string
  start :: int
  end_pos :: int
  strand :: string
  seqname :: string
  seqlength :: int

text \<open>
  Modelled from the spec: the attribute \<open>width\<close> of a SeqRange belongs to the
  BioRanges library, which is not part of the source tree. Section 4.4 of the
  specification reads it as the length of the contig (\<open>query_width\<close>), the value that
  \<open>add_alignment\<close> passes to the constructor as \<open>seqlength\<close>.
\<close>

definition width :: "seqrange \<Rightarrow> int" where
  "width h = seqlength h"

text \<open>
  Modelled from the spec: \<open>forward_coordinate_transform\<close> is a method of the same
  library. Section 4.1: on a contig of length L a minus-strand interval from s to e
  becomes the interval from L - e to L - s on the plus strand, all else unchanged.
\<close>

definition forward_coordinate_transform :: "seqrange \<Rightarrow> seqrange" where
  "forward_coordinate_transform h =
     (if strand h = ''-''
      then h\<lparr>start := seqlength h - end_pos h, end_pos := seqlength h - start h,
             strand := ''+''\<rparr>
      else h)"

datatype AnchorHSPs =
  AnchorHSPs (anchor_relative: string) (most_5prime: seqrange) (most_3prime: seqrange)

text \<open>
  A Contig: the sequence record (id, sequence, description), the annotation
  dictionary, the collected HSPs and the flag \<open>has_relative\<close>.
\<close>

record contig =
  record_id :: string
  record_seq :: string
  record_description :: string
  annotation :: "(string \<times> string) list"
  hsps :: "seqrange list"
  has_relative :: bool

definition Contig_init :: "string \<Rightarrow> string \<Rightarrow> string \<Rightarrow> contig" where
  "Contig_init rid rseq rdesc =
     \<lparr>record_id = rid, record_seq = rseq, record_description = rdesc,
      annotation = [], hsps = [], has_relative = False\<rparr>"

text \<open>
  Reading a boolean attribute of a Contig by name. The constructor assigns
  \<open>record\<close>, \<open>annotation\<close>, \<open>hsps\<close> and \<open>has_relative\<close>, and no method assigns another
  name; \<open>has_relative\<close> is the only flag among them. A name that the instance and the
  class do not define raises AttributeError.
\<close>

definition read_flag :: "contig \<Rightarrow> string \<Rightarrow> error + bool" where
  "read_flag c name =
     (if name = ''has_relative'' then Inr (has_relative c) else Inl AttributeError)"

subsection \<open>Ingesting an alignment\<close>

definition HSP_to_dict :: "blast_hsp \<Rightarrow> error + hsp_dict" where
  "HSP_to_dict hsp =
     (if snd (hsp_frame hsp) \<noteq> 0 then Inl AssertionError
      else if \<not> hsp_sbjct_start hsp < hsp_sbjct_end hsp then Inl AssertionError
      else if hsp_align_length hsp = 0 then Inl ZeroDivisionError
      else Inr \<lparr>expect = hsp_expect hsp,
                identities = hsp_identities hsp,
                align_length = hsp_align_length hsp,
                percent_identity =
                  of_int (hsp_identities hsp) / of_int (hsp_align_length hsp),
                sbjct_start = hsp_sbjct_start hsp,
                sbjct_end = hsp_sbjct_end hsp,
                frame = fst (hsp_frame hsp)\<rparr>)"

text \<open>The body of the loop of \<open>add_alignment\<close>, for one HSP of the best alignment.\<close>

definition add_hsp :: "contig \<Rightarrow> string \<Rightarrow> string \<Rightarrow> blast_hsp \<Rightarrow> error + contig" where
  "add_hsp c rel ttl hsp =
     (let qstart = query_start hsp - 1;
          qend = query_end hsp - 1;
          strnd = (if fst (hsp_frame hsp) < 0 then ''-'' else ''+'')
      in if \<not> qstart \<le> qend then Inl AssertionError
         else case HSP_to_dict hsp of
                Inl e \<Rightarrow> Inl e
              | Inr data \<Rightarrow>
                  Inr (c\<lparr>hsps := hsps c @
                        [\<lparr>expect = expect data, identities = identities data,
                          align_length = align_length data,
                          percent_identity = percent_identity data,
                          sbjct_start = sbjct_start data, sbjct_end = sbjct_end data,
                          frame = frame data,
                          relative = rel, title = ttl,
                          start = qstart, end_pos = qend, strand = strnd,
                          seqname = record_id c,
                          seqlength = int (length (record_seq c))\<rparr>]\<rparr>))"

text \<open>
  The loop. An exception leaves the contig as it is at that moment, with the
  records appended before it.
\<close>

fun add_hsps :: "contig \<Rightarrow> string \<Rightarrow> string \<Rightarrow> blast_hsp list \<Rightarrow> error option \<times> contig" where
  "add_hsps c rel ttl [] = (None, c)"
| "add_hsps c rel ttl (hsp # rest) =
     (case add_hsp c rel ttl hsp of
        Inl e \<Rightarrow> (Some e, c)
      | Inr c' \<Rightarrow> add_hsps c' rel ttl rest)"

definition add_alignment :: "contig \<Rightarrow> string \<Rightarrow> blast_record \<Rightarrow> error option \<times> contig" where
  "add_alignment c rel blast_rec =
     (case alignments blast_rec of
        [] \<Rightarrow> (None, c)
      | best_alignment # _ \<Rightarrow>
          (case add_hsps c rel (aln_title best_alignment) (aln_hsps best_alignment) of
             (Some e, c') \<Rightarrow> (Some e, c')
           | (None, c') \<Rightarrow> (None, c'\<lparr>has_relative := True\<rparr>)))"

subsection \<open>Counters and grouping\<close>

text \<open>
  A \<open>collections.Counter\<close> is an association list with distinct keys, in the order
  in which the keys were first stored. A missing key reads as 0, and \<open>cnt[k] += v\<close>
  stores the key even when \<open>v\<close> is 0.
\<close>

type_synonym 'k counter = "('k \<times> int) list"

fun counter_get :: "'k counter \<Rightarrow> 'k \<Rightarrow> int" where
  "counter_get [] k = 0"
| "counter_get ((k', n) # cnt) k = (if k' = k then n else counter_get cnt k)"

fun counter_add :: "'k counter \<Rightarrow> 'k \<Rightarrow> int \<Rightarrow> 'k counter" where
  "counter_add [] k v = [(k, v)]"
| "counter_add ((k', n) # cnt) k v =
     (if k' = k then (k', n + v) # cnt else (k', n) # counter_add cnt k v)"

text \<open>
  \<open>most_common(1)\<close> takes the largest count with \<open>max\<close>, which keeps the first of
  several equal maxima in the iteration order of the dictionary. The iteration order
  is taken to be the order of first storing; it matters only between equal counts.
\<close>

fun max_item :: "'k \<times> int \<Rightarrow> ('k \<times> int) list \<Rightarrow> 'k \<times> int" where
  "max_item best [] = best"
| "max_item best (x # xs) = max_item (if snd best < snd x then x else best) xs"

text \<open>
  \<open>itertools.groupby\<close>: maximal runs of neighbours with the same key, each with its
  key.
\<close>

function groupby :: "('a \<Rightarrow> 'k) \<Rightarrow> 'a list \<Rightarrow> ('k \<times> 'a list) list" where
  "groupby f [] = []"
| "groupby f (x # xs) =
     (f x, x # takeWhile (\<lambda>y. f y = f x) xs) # groupby f (dropWhile (\<lambda>y. f y = f x) xs)"
  by pat_completeness auto
termination
  by (relation "measure (\<lambda>(f, xs). length xs)")
     (auto simp: length_dropWhile_le less_Suc_eq_le)

text \<open>
  Python 2 compares an int with a Counter by its rule for objects of different
  types: a number is smaller than any object that is not a number, whatever the two
  values are. So \<open>n >= cnt\<close> is False for every int \<open>n\<close> and every Counter \<open>cnt\<close>.
\<close>

definition int_ge_counter :: "int \<Rightarrow> bool counter \<Rightarrow> bool" where
  "int_ge_counter n cnt = False"

subsection \<open>Evidence from the collected HSPs\<close>

definition filtered_hsps :: "contig \<Rightarrow> rat \<Rightarrow> seqrange list" where
  "filtered_hsps c min_expect = filter (\<lambda>x. expect x \<le> min_expect) (hsps c)"

definition count_frames :: "contig \<Rightarrow> rat \<Rightarrow> int counter" where
  "count_frames c min_expect =
     foldl (\<lambda>frames hsp. counter_add frames (frame hsp) (identities hsp)) []
       (filtered_hsps c min_expect)"

definition majority_frame :: "contig \<Rightarrow> rat \<Rightarrow> int option" where
  "majority_frame c min_expect =
     (if \<not> has_relative c then None
      else case count_frames c min_expect of
             [] \<Rightarrow> None
           | x # xs \<Rightarrow> Some (fst (max_item x xs)))"

definition any_frameshift :: "contig \<Rightarrow> rat \<Rightarrow> bool option" where
  "any_frameshift c min_expect =
     (if \<not> has_relative c then None
      else case count_frames c min_expect of
             [] \<Rightarrow> None
           | x # xs \<Rightarrow> Some (1 < length (remdups (map fst (x # xs)))))"

text \<open>
  The triples (relative, frame, identities) of the filtered HSPs, sorted by relative
  (a stable sort) and grouped by relative.
\<close>

definition by_relative :: "contig \<Rightarrow> rat \<Rightarrow> (string \<times> (string \<times> int \<times> int) list) list" where
  "by_relative c min_expect =
     groupby fst
       (sort_key fst
          (map (\<lambda>h. (relative h, frame h, identities h)) (filtered_hsps c min_expect)))"

text \<open>\<open>[f/abs(f) for f in frames]\<close>: integer division, which fails on a frame 0.\<close>

fun strand_signs :: "int list \<Rightarrow> error + int list" where
  "strand_signs [] = Inr []"
| "strand_signs (f # fs) =
     (if f = 0 then Inl ZeroDivisionError
      else case strand_signs fs of
             Inl e \<Rightarrow> Inl e
           | Inr ss \<Rightarrow> Inr (f div \<bar>f\<bar> # ss))"

text \<open>
  The loop of \<open>inconsistent_strand\<close> over the groups; \<open>len(set(xs))\<close> is the length
  of the list without its duplicates.
\<close>

fun tally_strands ::
  "bool counter \<Rightarrow> (string \<times> (string \<times> int \<times> int) list) list \<Rightarrow> error + bool counter" where
  "tally_strands cnt [] = Inr cnt"
| "tally_strands cnt ((rel, hsps_info) # groups) =
     (case strand_signs (map (\<lambda>t. fst (snd t)) hsps_info) of
        Inl e \<Rightarrow> Inl e
      | Inr strands \<Rightarrow>
          tally_strands (counter_add cnt (1 < length (remdups strands)) 1) groups)"

definition inconsistent_strand :: "contig \<Rightarrow> rat \<Rightarrow> error + bool" where
  "inconsistent_strand c min_expect =
     (case tally_strands [] (by_relative c min_expect) of
        Inl e \<Rightarrow> Inl e
      | Inr cnt \<Rightarrow> Inr (int_ge_counter (counter_get cnt True) cnt))"

definition get_strand :: "contig \<Rightarrow> rat \<Rightarrow> error + string option" where
  "get_strand c min_expect =
     (if \<not> has_relative c then Inr None
      else case inconsistent_strand c min_expect of
             Inl e \<Rightarrow> Inl e
           | Inr True \<Rightarrow> Inr None
           | Inr False \<Rightarrow>
               (let strands = map strand (filtered_hsps c min_expect)
                in if length (remdups strands) \<noteq> 1 then Inl AssertionError
                   else case strands of
                          [] \<Rightarrow> Inl IndexError
                        | s # _ \<Rightarrow> Inr (Some s)))"

text \<open>The loop of \<open>majority_frameshift\<close> over the groups.\<close>

fun tally_frameshifts ::
  "bool counter \<Rightarrow> (string \<times> (string \<times> int \<times> int) list) list \<Rightarrow> bool counter" where
  "tally_frameshifts cnt [] = cnt"
| "tally_frameshifts cnt ((rel, hsps_info) # groups) =
     (let has_multiple_frames = 1 < length (remdups (map (\<lambda>t. fst (snd t)) hsps_info));
          num_identities = map (\<lambda>t. snd (snd t)) hsps_info
      in tally_frameshifts (counter_add cnt has_multiple_frames (sum_list num_identities))
           groups)"

definition majority_frameshift :: "contig \<Rightarrow> rat \<Rightarrow> bool option" where
  "majority_frameshift c min_expect =
     (if \<not> has_relative c then None
      else let frameshifts = tally_frameshifts [] (by_relative c min_expect)
           in Some (counter_get frameshifts False \<le> counter_get frameshifts True))"

subsection \<open>Anchors and the missing 5' end\<close>

text \<open>
  \<open>sorted(range(n), key=..., reverse=True)\<close> keeps the order of equal keys, as the
  stable sort on the negated key does; \<open>[0]\<close> on an empty list raises IndexError.
  Both indices are taken over all of \<open>self.hsps\<close>; the filtered list is built and
  not used.
\<close>

definition get_anchor_HSPs :: "contig \<Rightarrow> rat \<Rightarrow> error + AnchorHSPs option" where
  "get_anchor_HSPs c min_expect =
     (if \<not> has_relative c then Inr None
      else let filtered = filtered_hsps c min_expect;
               n = length (hsps c)
           in case sort_key (\<lambda>k. - end_pos (hsps c ! k)) [0..<n] of
                [] \<Rightarrow> Inl IndexError
              | i # _ \<Rightarrow>
                 (case sort_key (\<lambda>k. start (hsps c ! k)) [0..<n] of
                    [] \<Rightarrow> Inl IndexError
                  | j # _ \<Rightarrow>
                     (case get_strand c min_expect of
                        Inl e \<Rightarrow> Inl e
                      | Inr s \<Rightarrow>
                          if s = Some ''-''
                          then Inr (Some (AnchorHSPs (relative (hsps c ! i))
                                            (hsps c ! i) (hsps c ! j)))
                          else Inr (Some (AnchorHSPs (relative (hsps c ! j))
                                            (hsps c ! j) (hsps c ! i))))))"

text \<open>Unpacking \<open>None\<close> into three names raises TypeError.\<close>

definition missing_5prime :: "contig \<Rightarrow> rat \<Rightarrow> rat \<Rightarrow> rat \<Rightarrow> error + bool option" where
  "missing_5prime c qs_thresh ss_thresh min_expect =
     (if \<not> has_relative c then Inr None
      else case get_anchor_HSPs c min_expect of
             Inl e \<Rightarrow> Inl e
           | Inr None \<Rightarrow> Inl TypeError
           | Inr (Some anchors) \<Rightarrow>
               (let m5 = most_5prime anchors
                in if strand m5 = ''-''
                   then Inr (Some (of_int (start m5) \<le> qs_thresh
                                   \<and> ss_thresh \<le> of_int (sbjct_start m5)))
                   else let qs = \<bar>start m5 - width m5\<bar> + 1
                        in Inr (Some (of_int qs \<le> qs_thresh
                                      \<and> ss_thresh \<le> of_int (sbjct_start m5)))))"

subsection \<open>The ORF predictor\<close>

text \<open>
  The outcomes of \<open>predict_orf\<close>. Every path of the source that returns gives
  \<open>None\<close>, the outcome "no prediction"; the second outcome is the one that section
  4.5 of the specification names, and no path of the source builds it.
\<close>

datatype prediction =
  NoPrediction
| Predicted (orf_start: int) (orf_end: int) (orf_frame: int) (orf_strand: string)
    (orf_missing_5prime: bool)

definition DEFAULT_MIN_EXPECT :: rat where
  "DEFAULT_MIN_EXPECT = 10"

text \<open>The lookup \<open>{"+":1, "-":-1}[strand]\<close>; any other key raises KeyError.\<close>

definition strand_sign :: "string option \<Rightarrow> error + int" where
  "strand_sign s =
     (if s = Some ''+'' then Inr 1 else if s = Some ''-'' then Inr (- 1) else Inl KeyError)"

text \<open>
  The steps of \<open>predict_orf\<close> after its guard. With a majority frameshift the
  assertion looks the strand up in an empty dictionary, which raises KeyError. The
  call \<open>self.missing_5prime(min_expect)\<close> passes \<open>min_expect\<close> in the place of
  \<open>qs_thresh\<close> and leaves the other two arguments at their defaults.
\<close>

definition predict_steps :: "contig \<Rightarrow> rat \<Rightarrow> error + prediction" where
  "predict_steps c min_expect =
     (case get_strand c min_expect of
        Inl e \<Rightarrow> Inl e
      | Inr strnd \<Rightarrow>
         (case get_anchor_HSPs c min_expect of
            Inl e \<Rightarrow> Inl e
          | Inr None \<Rightarrow> Inl TypeError
          | Inr (Some anchors) \<Rightarrow>
              if majority_frameshift c min_expect = Some True then Inl KeyError
              else (case strand_sign strnd of
                      Inl e \<Rightarrow> Inl e
                    | Inr sgn_strand \<Rightarrow>
                       (case majority_frame c min_expect of
                          None \<Rightarrow> Inl TypeError
                        | Some frm \<Rightarrow>
                            if frm = 0 then Inl ZeroDivisionError
                            else if sgn_strand \<noteq> frm div \<bar>frm\<bar> then Inl AssertionError
                            else let transformed =
                                       (if frm < 0
                                        then (forward_coordinate_transform (most_5prime anchors),
                                              forward_coordinate_transform (most_3prime anchors))
                                        else (most_5prime anchors, most_3prime anchors))
                                 in (case missing_5prime c min_expect 40 DEFAULT_MIN_EXPECT of
                                       Inl e \<Rightarrow> Inl e
                                     | Inr missing \<Rightarrow> Inr NoPrediction)))))"

text \<open>
  The guard reads the attribute \<open>has_relatives\<close>, before anything else is evaluated.
\<close>

definition predict_orf ::
  "contig \<Rightarrow> rat option \<Rightarrow> rat \<Rightarrow> rat \<Rightarrow> rat \<Rightarrow> error + prediction" where
  "predict_orf c e_value qs_thresh ss_thresh min_expect =
     (case read_flag c ''has_relatives'' of
        Inl e \<Rightarrow> Inl e
      | Inr has_relatives \<Rightarrow>
          if \<not> has_relatives then Inr NoPrediction
          else (case inconsistent_strand c min_expect of
                  Inl e \<Rightarrow> Inl e
                | Inr True \<Rightarrow> Inr NoPrediction
                | Inr False \<Rightarrow> predict_steps c min_expect))"

subsection \<open>Example inputs\<close>

text \<open>
  A parsed HSP with subject range 1 to 30 and alignment length 100, a BLAST record
  with one alignment, a contig of a given length, and the contig after one more call
  of \<open>add_alignment\<close>.
\<close>

definition example_hsp :: "int \<Rightarrow> int \<Rightarrow> int \<Rightarrow> rat \<Rightarrow> int \<Rightarrow> blast_hsp" where
  "example_hsp qs qe frm e ident =
     \<lparr>query_start = qs, query_end = qe, hsp_sbjct_start = 1, hsp_sbjct_end = 30,
      hsp_frame = (frm, 0), hsp_expect = e, hsp_identities = ident,
      hsp_align_length = 100\<rparr>"

definition example_record :: "blast_hsp list \<Rightarrow> blast_record" where
  "example_record hs = \<lparr>alignments = [\<lparr>aln_title = ''hit'', aln_hsps = hs\<rparr>]\<rparr>"

definition example_contig :: "nat \<Rightarrow> contig" where
  "example_contig n = Contig_init ''contig1'' (replicate n (CHR ''A'')) []"

definition ingest :: "contig \<Rightarrow> string \<Rightarrow> blast_hsp list \<Rightarrow> contig" where
  "ingest c rel hs = snd (add_alignment c rel (example_record hs))"

text \<open>Relative A passes the expect filter at 10, relative B (expect 100) does not.\<close>

definition contig_unfiltered :: contig where
  "contig_unfiltered =
     ingest (ingest (example_contig 300) ''A'' [example_hsp 11 100 1 (1 / 1000) 80])
       ''B'' [example_hsp 1 250 1 100 20]"


text \<open>One relative with an HSP on each strand.\<close>

definition contig_split :: contig where
  "contig_split =
     ingest (example_contig 300) ''A''
       [example_hsp 11 100 1 (1 / 1000) 80, example_hsp 120 250 (- 2) (1 / 1000) 80]"

text \<open>A contig of length 200 whose only HSP starts at 0-based position 5, plus strand.\<close>

definition contig_forward :: contig where
  "contig_forward =
     ingest (example_contig 200) ''A'' [example_hsp 6 100 1 (1 / 1000) 80]"

text \<open>
  One HSP in frame 1 with 90 identities against three HSPs in frame 2 with 10
  identities each.
\<close>

definition contig_weighted :: contig where
  "contig_weighted =
     ingest (ingest (example_contig 300) ''A'' [example_hsp 11 100 1 (1 / 1000) 90])
       ''B'' [example_hsp 11 40 2 (1 / 1000) 10, example_hsp 50 80 2 (1 / 1000) 10,
              example_hsp 90 120 2 (1 / 1000) 10]"

text \<open>A relative whose only HSP has expect 100.\<close>

definition contig_weak :: contig where
  "contig_weak = ingest (example_contig 300) ''A'' [example_hsp 11 100 1 100 80]"

section \<open>Properties\<close>

subsection \<open>Counters\<close>

lemma counter_get_add:
  "counter_get (counter_add cnt k v) k' =
     (if k' = k then counter_get cnt k + v else counter_get cnt k')"
  by (induction cnt k v rule: counter_add.induct) auto

lemma counter_add_keys:
  "fst ` set (counter_add cnt k v) = insert k (fst ` set cnt)"
  by (induction cnt k v rule: counter_add.induct) auto

lemma counter_add_distinct:
  "distinct (map fst cnt) \<Longrightarrow> distinct (map fst (counter_add cnt k v))"
  by (induction cnt k v rule: counter_add.induct) (auto simp: counter_add_keys)

lemma counter_get_member:
  "distinct (map fst cnt) \<Longrightarrow> (k, v) \<in> set cnt \<Longrightarrow> counter_get cnt k = v"
  by (induction cnt) (auto simp: rev_image_eqI)

lemma counter_member_key:
  "k \<in> fst ` set cnt \<Longrightarrow> (k, counter_get cnt k) \<in> set cnt"
  by (induction cnt) force+

lemma max_item_member: "max_item best xs \<in> set (best # xs)"
  by (induction best xs rule: max_item.induct) auto

lemma max_item_mono: "snd best \<le> snd (max_item best xs)"
proof (induction best xs rule: max_item.induct)
  case (1 best)
  then show ?case by simp
next
  case (2 best y ys)
  then show ?case by (simp split: if_splits)
qed

lemma max_item_ge: "x \<in> set (best # xs) \<Longrightarrow> snd x \<le> snd (max_item best xs)"
proof (induction best xs rule: max_item.induct)
  case (1 best)
  then show ?case by simp
next
  case (2 best y ys)
  let ?b = "if snd best < snd y then y else best"
  have m: "snd ?b \<le> snd (max_item ?b ys)"
    by (rule max_item_mono)
  from "2.prems" consider "x = best" | "x = y" | "x \<in> set ys"
    by auto
  then show ?case
  proof cases
    case 1
    then show ?thesis using m by (simp split: if_splits)
  next
    case 2
    then show ?thesis using m by (simp split: if_splits)
  next
    case 3
    then show ?thesis using "2.IH" by simp
  qed
qed

subsection \<open>The frame tally\<close>

lemma foldl_frames_get:
  "counter_get
     (foldl (\<lambda>frames hsp. counter_add frames (frame hsp) (identities hsp)) cnt hs) k =
   counter_get cnt k + sum_list (map identities (filter (\<lambda>h. frame h = k) hs))"
  by (induction hs arbitrary: cnt) (auto simp: counter_get_add)

lemma foldl_frames_keys:
  "fst ` set (foldl (\<lambda>frames hsp. counter_add frames (frame hsp) (identities hsp)) cnt hs) =
   fst ` set cnt \<union> frame ` set hs"
  by (induction hs arbitrary: cnt) (auto simp: counter_add_keys)

lemma foldl_frames_distinct:
  "distinct (map fst cnt) \<Longrightarrow>
   distinct
     (map fst (foldl (\<lambda>frames hsp. counter_add frames (frame hsp) (identities hsp)) cnt hs))"
  by (induction hs arbitrary: cnt) (auto simp: counter_add_distinct)

lemma count_frames_get:
  "counter_get (count_frames c m) k =
     sum_list (map identities (filter (\<lambda>h. frame h = k) (filtered_hsps c m)))"
  by (simp add: count_frames_def foldl_frames_get)

lemma count_frames_keys: "fst ` set (count_frames c m) = frame ` set (filtered_hsps c m)"
  by (simp add: count_frames_def foldl_frames_keys)

lemma count_frames_distinct: "distinct (map fst (count_frames c m))"
  by (simp add: count_frames_def foldl_frames_distinct)

lemma sum_identities_nonneg:
  "\<forall>h\<in>set hs. 0 \<le> identities h \<Longrightarrow> 0 \<le> sum_list (map identities (filter P hs))"
  by (induction hs) auto

lemma sum_one_frame_le:
  assumes "\<forall>h\<in>set hs. 0 \<le> identities h" and "G \<noteq> F"
  shows "sum_list (map identities (filter (\<lambda>h. frame h = G) hs))
           \<le> sum_list (map identities (filter (\<lambda>h. frame h \<noteq> F) hs))"
  using assms by (induction hs) auto

text \<open>
  C6. On a contig with a relative, whose filtered HSPs have identities that are not
  negative: when the identities of the filtered HSPs in frame F add up to strictly
  more than the identities of all filtered HSPs in other frames together,
  \<open>majority_frame\<close> returns F, however many HSPs carry each frame.
\<close>

theorem majority_frame_weighted:
  assumes rel: "has_relative c"
    and nonneg: "\<forall>h\<in>set (filtered_hsps c m). 0 \<le> identities h"
    and more: "sum_list (map identities (filter (\<lambda>h. frame h \<noteq> F) (filtered_hsps c m)))
                 < sum_list (map identities (filter (\<lambda>h. frame h = F) (filtered_hsps c m)))"
  shows "majority_frame c m = Some F"
proof -
  let ?hs = "filtered_hsps c m"
  let ?T = "count_frames c m"
  have "0 \<le> sum_list (map identities (filter (\<lambda>h. frame h \<noteq> F) ?hs))"
    using nonneg by (rule sum_identities_nonneg)
  with more have "0 < sum_list (map identities (filter (\<lambda>h. frame h = F) ?hs))"
    by simp
  then have "filter (\<lambda>h. frame h = F) ?hs \<noteq> []"
    by auto
  then have "F \<in> frame ` set ?hs"
    by (auto simp: filter_empty_conv)
  then have Fin: "(F, counter_get ?T F) \<in> set ?T"
    using count_frames_keys counter_member_key by metis
  then obtain x xs where T: "?T = x # xs"
    by (cases ?T) auto
  let ?r = "max_item x xs"
  have rin: "?r \<in> set ?T"
    using max_item_member [of x xs] T by simp
  have rge: "counter_get ?T F \<le> snd ?r"
    using max_item_ge [of "(F, counter_get ?T F)" x xs] Fin T by simp
  have rval: "counter_get ?T (fst ?r) = snd ?r"
    using counter_get_member [OF count_frames_distinct, of "fst ?r" "snd ?r" c m] rin by simp
  have "fst ?r = F"
  proof (rule ccontr)
    assume neq: "fst ?r \<noteq> F"
    have "snd ?r \<le> sum_list (map identities (filter (\<lambda>h. frame h \<noteq> F) ?hs))"
      using sum_one_frame_le [OF nonneg neq] rval count_frames_get by simp
    with more rge count_frames_get show False by simp
  qed
  then show ?thesis
    using rel T by (simp add: majority_frame_def)
qed

theorem majority_frame_weighted_witness:
  "has_relative contig_weighted
   \<and> length (filter (\<lambda>h. frame h = 1) (filtered_hsps contig_weighted 10))
       < length (filter (\<lambda>h. frame h \<noteq> 1) (filtered_hsps contig_weighted 10))
   \<and> majority_frame contig_weighted 10 = Some 1"
proof -
  have rel: "has_relative contig_weighted"
    by code_simp
  have nonneg: "\<forall>h\<in>set (filtered_hsps contig_weighted 10). 0 \<le> identities h"
    by code_simp
  have more:
    "sum_list (map identities (filter (\<lambda>h. frame h \<noteq> 1) (filtered_hsps contig_weighted 10)))
       < sum_list (map identities (filter (\<lambda>h. frame h = 1) (filtered_hsps contig_weighted 10)))"
    by code_simp
  have fewer: "length (filter (\<lambda>h. frame h = 1) (filtered_hsps contig_weighted 10))
       < length (filter (\<lambda>h. frame h \<noteq> 1) (filtered_hsps contig_weighted 10))"
    by code_simp
  show ?thesis
    using rel fewer majority_frame_weighted [OF rel nonneg more] by simp
qed

subsection \<open>The guard of the ORF predictor\<close>

text \<open>
  C10. For every contig and all arguments \<open>predict_orf\<close> raises AttributeError, at
  the attribute \<open>has_relatives\<close> that its guard reads and no Contig has, and so never
  returns a predicted ORF.
\<close>

theorem predict_orf_raises:
  "predict_orf c e_value qs_thresh ss_thresh min_expect = Inl AttributeError
   \<and> (\<forall>p. predict_orf c e_value qs_thresh ss_thresh min_expect \<noteq> Inr p)"
  by (simp add: predict_orf_def read_flag_def)

text \<open>
  C1. On a new contig, whose flag \<open>has_relative\<close> is false, \<open>predict_orf\<close> does not
  return the outcome "no prediction": it raises AttributeError.
\<close>

theorem predict_orf_new_contig:
  "\<not> has_relative (example_contig 300)
   \<and> predict_orf (example_contig 300) None 16 40 10 \<noteq> Inr NoPrediction
   \<and> predict_orf (example_contig 300) None 16 40 10 = Inl AttributeError"
  by (simp add: predict_orf_def read_flag_def example_contig_def Contig_init_def)

subsection \<open>Strand consistency and the strand\<close>








text \<open>
  C4. One relative with an HSP in frame 1 and an HSP in frame -2, both passing the
  filter: the only relative with evidence is split, and \<open>inconsistent_strand\<close>
  returns False.
\<close>

theorem inconsistent_strand_split_relative:
  "map (\<lambda>h. (relative h, frame h)) (filtered_hsps contig_split 10) = [(''A'', 1), (''A'', - 2)]
   \<and> inconsistent_strand contig_split 10 = Inr False"
  by code_simp




subsection \<open>No HSP passes the filter\<close>

text \<open>
  C7. The contig has a relative, and its only HSP has expect 100, so that no HSP
  passes the filter at 10. \<open>majority_frame\<close> and \<open>any_frameshift\<close> return None;
  \<open>get_strand\<close> raises AssertionError and \<open>majority_frameshift\<close> returns True.
\<close>

theorem no_evidence_queries_weak_contig:
  "has_relative contig_weak
   \<and> filtered_hsps contig_weak 10 = []
   \<and> majority_frame contig_weak 10 = None
   \<and> any_frameshift contig_weak 10 = None
   \<and> inconsistent_strand contig_weak 10 = Inr False
   \<and> get_strand contig_weak 10 = Inl AssertionError
   \<and> majority_frameshift contig_weak 10 = Some True"
  by code_simp

subsection \<open>Anchors\<close>

lemma sorted_indices_head: "sort_key f [0..<n] = i # rest \<Longrightarrow> i < n"
proof -
  assume "sort_key f [0..<n] = i # rest"
  then have "i \<in> set (sort_key f [0..<n])"
    by simp
  then show "i < n"
    by simp
qed

lemma anchors_members:
  assumes "get_anchor_HSPs c m = Inr (Some a)"
  shows "most_5prime a \<in> set (hsps c) \<and> most_3prime a \<in> set (hsps c)"
  using assms
  by (auto simp: get_anchor_HSPs_def Let_def dest!: sorted_indices_head
           split: if_splits list.splits sum.splits)

text \<open>
  C2. Relative A has an HSP from 10 to 99 with expect 1/1000, relative B an HSP from
  0 to 249 with expect 100. With \<open>min_expect\<close> 10 only the HSP of A passes the filter,
  and both anchors are the HSP of B.
\<close>

theorem get_anchor_HSPs_unfiltered:
  "map expect (filtered_hsps contig_unfiltered 10) = [1 / 1000]
   \<and> expect (hsps contig_unfiltered ! 1) = 100
   \<and> get_anchor_HSPs contig_unfiltered 10 =
       Inr (Some (AnchorHSPs ''B'' (hsps contig_unfiltered ! 1) (hsps contig_unfiltered ! 1)))"
  by code_simp

subsection \<open>The missing 5' end\<close>

text \<open>
  C5. On a contig whose HSPs carry the length of its sequence, as \<open>add_alignment\<close>
  stores it, and whose 5'-most anchor is on the plus strand: \<open>missing_5prime\<close>
  returns whether qs, the distance of the anchor's start from the length of the
  contig plus 1, is at most \<open>qs_thresh\<close> and the anchor's subject start is at least
  \<open>ss_thresh\<close>. With start 5 and length 200, qs is 196 and the answer is False for
  every \<open>qs_thresh\<close> below 196 and every subject start.
\<close>

theorem missing_5prime_forward:
  assumes inv: "\<forall>h\<in>set (hsps c). seqlength h = int (length (record_seq c))"
    and anchors: "get_anchor_HSPs c m = Inr (Some a)"
    and fwd: "strand (most_5prime a) = ''+''"
  shows "missing_5prime c qs_thresh ss_thresh m =
           Inr (Some (of_int (\<bar>start (most_5prime a) - int (length (record_seq c))\<bar> + 1)
                        \<le> qs_thresh
                      \<and> ss_thresh \<le> of_int (sbjct_start (most_5prime a))))
         \<and> (start (most_5prime a) = 5 \<and> length (record_seq c) = 200 \<and> qs_thresh < 196
              \<longrightarrow> \<bar>start (most_5prime a) - int (length (record_seq c))\<bar> + 1 = 196
                  \<and> missing_5prime c qs_thresh ss_thresh m = Inr (Some False))"
proof -
  have rel: "has_relative c"
    using anchors by (auto simp: get_anchor_HSPs_def split: if_splits)
  have "most_5prime a \<in> set (hsps c)"
    using anchors_members [OF anchors] by simp
  then have w: "width (most_5prime a) = int (length (record_seq c))"
    using inv by (simp add: width_def)
  have eq: "missing_5prime c qs_thresh ss_thresh m =
           Inr (Some (of_int (\<bar>start (most_5prime a) - int (length (record_seq c))\<bar> + 1)
                        \<le> qs_thresh
                      \<and> ss_thresh \<le> of_int (sbjct_start (most_5prime a))))"
    using rel anchors fwd w by (simp add: missing_5prime_def Let_def)
  have "missing_5prime c qs_thresh ss_thresh m = Inr (Some False)"
    if p: "start (most_5prime a) = 5 \<and> length (record_seq c) = 200 \<and> qs_thresh < 196"
  proof -
    have "\<not> of_int (\<bar>start (most_5prime a) - int (length (record_seq c))\<bar> + 1) \<le> qs_thresh"
      using p by simp
    then show ?thesis
      using eq by simp
  qed
  then show ?thesis
    using eq by simp
qed

theorem missing_5prime_forward_witness:
  "get_anchor_HSPs contig_forward 10 =
     Inr (Some (AnchorHSPs ''A'' (hsps contig_forward ! 0) (hsps contig_forward ! 0)))
   \<and> strand (hsps contig_forward ! 0) = ''+''
   \<and> start (hsps contig_forward ! 0) = 5
   \<and> length (record_seq contig_forward) = 200
   \<and> missing_5prime contig_forward 16 40 10 = Inr (Some False)"
proof -
  let ?a = "AnchorHSPs ''A'' (hsps contig_forward ! 0) (hsps contig_forward ! 0)"
  have inv: "\<forall>h\<in>set (hsps contig_forward). seqlength h = int (length (record_seq contig_forward))"
    by code_simp
  have anchors: "get_anchor_HSPs contig_forward 10 = Inr (Some ?a)"
    by code_simp
  have fwd: "strand (most_5prime ?a) = ''+''"
    by code_simp
  have at: "start (most_5prime ?a) = 5"
    by code_simp
  have len: "length (record_seq contig_forward) = 200"
    by code_simp
  show ?thesis
    using missing_5prime_forward [OF inv anchors fwd, of 16 40] anchors fwd at len
    by simp
qed

subsection \<open>Ingestion\<close>

lemma add_hsp_Inr:
  "add_hsp c rel ttl hsp = Inr c' \<Longrightarrow>
     \<exists>r. c' = c\<lparr>hsps := hsps c @ [r]\<rparr> \<and> start r = query_start hsp - 1
        \<and> end_pos r = query_end hsp - 1 \<and> seqlength r = int (length (record_seq c))"
  by (auto simp: add_hsp_def Let_def split: if_splits sum.splits)

lemma add_hsps_stored:
  "add_hsps c rel ttl hs = (r, c') \<Longrightarrow>
     \<exists>new. hsps c' = hsps c @ new \<and> length new \<le> length hs
        \<and> (r = None \<longrightarrow> length new = length hs)
        \<and> (\<forall>i<length new. start (new ! i) = query_start (hs ! i) - 1
                          \<and> end_pos (new ! i) = query_end (hs ! i) - 1)"
proof (induction hs arbitrary: c)
  case Nil
  then show ?case by simp
next
  case (Cons h hs)
  show ?case
  proof (cases "add_hsp c rel ttl h")
    case (Inl e)
    then have "c' = c" and "r = Some e"
      using Cons.prems by simp_all
    then show ?thesis by simp
  next
    case (Inr c1)
    then obtain x where c1: "c1 = c\<lparr>hsps := hsps c @ [x]\<rparr>"
      and x: "start x = query_start h - 1" "end_pos x = query_end h - 1"
      using add_hsp_Inr by blast
    have "add_hsps c1 rel ttl hs = (r, c')"
      using Cons.prems Inr by simp
    from Cons.IH [OF this] obtain new where new: "hsps c' = hsps c1 @ new"
      "length new \<le> length hs" "r = None \<longrightarrow> length new = length hs"
      "\<forall>i<length new. start (new ! i) = query_start (hs ! i) - 1
                        \<and> end_pos (new ! i) = query_end (hs ! i) - 1"
      by blast
    have "hsps c' = hsps c @ (x # new)"
      using new(1) c1 by simp
    moreover have "\<forall>i<length (x # new).
        start ((x # new) ! i) = query_start ((h # hs) ! i) - 1
        \<and> end_pos ((x # new) ! i) = query_end ((h # hs) ! i) - 1"
      using new(4) x by (auto simp: nth_Cons split: nat.splits)
    ultimately show ?thesis
      using new(2,3) by (intro exI [of _ "x # new"]) simp
  qed
qed

text \<open>
  Every record that \<open>add_alignment\<close> stores carries the length of the sequence of
  the contig as its \<open>seqlength\<close>.
\<close>

lemma add_hsps_seqlength:
  "add_hsps c rel ttl hs = (r, c') \<Longrightarrow>
   \<forall>h\<in>set (hsps c). seqlength h = int (length (record_seq c)) \<Longrightarrow>
   record_seq c' = record_seq c
   \<and> (\<forall>h\<in>set (hsps c'). seqlength h = int (length (record_seq c')))"
proof (induction hs arbitrary: c)
  case Nil
  then show ?case by simp
next
  case (Cons h hs)
  show ?case
  proof (cases "add_hsp c rel ttl h")
    case (Inl e)
    then show ?thesis using Cons.prems by simp
  next
    case (Inr c1)
    then obtain x where c1: "c1 = c\<lparr>hsps := hsps c @ [x]\<rparr>"
      and x: "seqlength x = int (length (record_seq c))"
      using add_hsp_Inr by blast
    have run: "add_hsps c1 rel ttl hs = (r, c')"
      using Cons.prems Inr by simp
    have "\<forall>h\<in>set (hsps c1). seqlength h = int (length (record_seq c1))"
      using Cons.prems(2) c1 x by simp
    from Cons.IH [OF run this] show ?thesis
      using c1 by simp
  qed
qed

lemma add_alignment_seqlength:
  assumes "add_alignment c rel blast_rec = (r, c')"
    and "\<forall>h\<in>set (hsps c). seqlength h = int (length (record_seq c))"
  shows "\<forall>h\<in>set (hsps c'). seqlength h = int (length (record_seq c'))"
proof (cases "alignments blast_rec")
  case Nil
  then show ?thesis using assms by (simp add: add_alignment_def)
next
  case (Cons best others)
  obtain r1 c1 where c1: "add_hsps c rel (aln_title best) (aln_hsps best) = (r1, c1)"
    by (cases "add_hsps c rel (aln_title best) (aln_hsps best)")
  have "hsps c' = hsps c1 \<and> record_seq c' = record_seq c1"
    using assms(1) Cons c1 by (cases r1) (auto simp: add_alignment_def)
  then show ?thesis
    using add_hsps_seqlength [OF c1 assms(2)] by simp
qed

text \<open>
  C8, the claim as stated fails: an HSP with query coordinates 11 to 100 is stored
  with start 10 and end 99, not end 100.
\<close>

theorem add_alignment_interval_counterexample:
  "query_start (example_hsp 11 100 1 (1 / 1000) 80) = 11
   \<and> query_end (example_hsp 11 100 1 (1 / 1000) 80) = 100
   \<and> map (\<lambda>h. (start h, end_pos h))
       (hsps (snd (add_alignment (example_contig 300) ''A''
                     (example_record [example_hsp 11 100 1 (1 / 1000) 80])))) = [(10, 99)]"
  by code_simp

text \<open>
  C8, amended. The records that a call of \<open>add_alignment\<close> appends are those of the
  HSPs of the best alignment, in order, and the record of an HSP with query
  coordinates qs and qe has start qs - 1 and end qe - 1: the closed 0-based interval
  of the same qe - qs + 1 positions.
\<close>

theorem add_alignment_query_interval:
  assumes best: "alignments blast_rec = best # others"
    and run: "add_alignment c rel blast_rec = (r, c')"
    and i: "length (hsps c) + i < length (hsps c')"
  shows "i < length (aln_hsps best)
         \<and> start (hsps c' ! (length (hsps c) + i)) = query_start (aln_hsps best ! i) - 1
         \<and> end_pos (hsps c' ! (length (hsps c) + i)) = query_end (aln_hsps best ! i) - 1
         \<and> end_pos (hsps c' ! (length (hsps c) + i))
             - start (hsps c' ! (length (hsps c) + i)) + 1
           = query_end (aln_hsps best ! i) - query_start (aln_hsps best ! i) + 1"
proof -
  obtain r1 c1 where c1: "add_hsps c rel (aln_title best) (aln_hsps best) = (r1, c1)"
    by (cases "add_hsps c rel (aln_title best) (aln_hsps best)")
  have hs: "hsps c' = hsps c1"
    using run best c1 by (cases r1) (auto simp: add_alignment_def)
  from add_hsps_stored [OF c1] obtain new where new: "hsps c1 = hsps c @ new"
    "length new \<le> length (aln_hsps best)"
    "\<forall>i<length new. start (new ! i) = query_start (aln_hsps best ! i) - 1
                      \<and> end_pos (new ! i) = query_end (aln_hsps best ! i) - 1"
    by blast
  have il: "i < length new"
    using i hs new(1) by simp
  have "hsps c' ! (length (hsps c) + i) = new ! i"
    using hs new(1) by (simp add: nth_append)
  then show ?thesis
    using new(2,3) il by auto
qed

theorem add_alignment_query_interval_witness:
  "length (hsps contig_split) = 2
   \<and> start (hsps contig_split ! 1) = 119 \<and> end_pos (hsps contig_split ! 1) = 249"
proof -
  let ?hs = "[example_hsp 11 100 1 (1 / 1000) 80, example_hsp 120 250 (- 2) (1 / 1000) 80]"
  let ?best = "\<lparr>aln_title = ''hit'', aln_hsps = ?hs\<rparr>"
  have best: "alignments (example_record ?hs) = ?best # []"
    by (simp add: example_record_def)
  have run: "add_alignment (example_contig 300) ''A'' (example_record ?hs) = (None, contig_split)"
    by code_simp
  have len: "length (hsps contig_split) = 2"
    by code_simp
  have i: "length (hsps (example_contig 300)) + 1 < length (hsps contig_split)"
    by code_simp
  have zero: "length (hsps (example_contig 300)) = 0"
    by code_simp
  show ?thesis
    using add_alignment_query_interval [OF best run i] len zero
    by (simp add: example_hsp_def)
qed

text \<open>
  C9, the claim as stated fails: an HSP with second frame 0 and subject range 1 to 30
  whose query start 100 lies after its query end 10 is not stored; the assertion of
  \<open>add_alignment\<close> on the query range raises AssertionError.
\<close>

theorem add_hsp_abort_counterexample:
  "snd (hsp_frame (example_hsp 100 10 1 (1 / 1000) 80)) = 0
   \<and> hsp_sbjct_start (example_hsp 100 10 1 (1 / 1000) 80)
       < hsp_sbjct_end (example_hsp 100 10 1 (1 / 1000) 80)
   \<and> add_alignment (example_contig 300) ''A''
       (example_record [example_hsp 100 10 1 (1 / 1000) 80])
     = (Some AssertionError, example_contig 300)"
  by code_simp

text \<open>
  C9, amended. The loop body of \<open>add_alignment\<close> raises for an HSP exactly when its
  second frame is not 0, or its subject start is not below its subject end, or its
  query end is below its query start, or its alignment length is 0. For every other
  HSP it appends one record, with the frame, the subject range, the expect value, the
  identities and the relative of the HSP.
\<close>

theorem add_hsp_abort_cases:
  "(\<exists>e. add_hsp c rel ttl hsp = Inl e) =
     (snd (hsp_frame hsp) \<noteq> 0 \<or> hsp_sbjct_end hsp \<le> hsp_sbjct_start hsp
      \<or> query_end hsp < query_start hsp \<or> hsp_align_length hsp = 0)
   \<and> (case add_hsp c rel ttl hsp of
        Inl e \<Rightarrow> True
      | Inr c' \<Rightarrow>
          butlast (hsps c') = hsps c \<and> length (hsps c') = length (hsps c) + 1
          \<and> frame (last (hsps c')) = fst (hsp_frame hsp)
          \<and> sbjct_start (last (hsps c')) = hsp_sbjct_start hsp
          \<and> sbjct_end (last (hsps c')) = hsp_sbjct_end hsp
          \<and> expect (last (hsps c')) = hsp_expect hsp
          \<and> identities (last (hsps c')) = hsp_identities hsp
          \<and> relative (last (hsps c')) = rel)"
  by (auto simp: add_hsp_def HSP_to_dict_def Let_def split: sum.splits)

theorem add_hsp_abort_cases_witness:
  "(\<exists>e. add_hsp (example_contig 300) ''A'' ''hit'' (example_hsp 11 100 1 (1 / 1000) 80) = Inl e)
     = False
   \<and> (\<exists>e. add_hsp (example_contig 300) ''A'' ''hit'' (example_hsp 100 10 1 (1 / 1000) 80) = Inl e)
     = True"
  using add_hsp_abort_cases [of "example_contig 300" "''A''" "''hit''"
      "example_hsp 11 100 1 (1 / 1000) 80"]
    add_hsp_abort_cases [of "example_contig 300" "''A''" "''hit''"
      "example_hsp 100 10 1 (1 / 1000) 80"]
  by (simp add: example_hsp_def)

end
